theory Spec2Isabelle
  imports Main
begin

section \<open>Shapes: the types that \<open>Jsonify F\<close> computes on\<close>

text \<open>
  \<open>source/jsonify.d.ts\<close> is a program of the type level: \<open>Jsonify<T>\<close> takes a type and
  computes a type, by conditional types (\<open>A extends B ? X : Y\<close>), mapped types and the
  helper types \<open>Extract\<close>, \<open>Exclude\<close> and \<open>Merge\<close>. The embedding represents the types it
  works on as values of the datatype \<open>shape\<close> and each type operator as a function.

  The fragment of types covered:
  \<^item> the primitive types, their literal types, and the two literal types
    \<open>PositiveInfinity\<close> and \<open>NegativeInfinity\<close> of \<open>./numeric\<close>;
  \<^item> \<open>undefined\<close>, \<open>symbol\<close>, \<open>bigint\<close>, and function types. A function type is one
    shape, \<open>TFunction\<close>: the source compares function types only with
    \<open>(...args: any[]) => any\<close>, in both directions, and the shape stands for the function
    types that this type is assignable to and from (a function type declared to return
    \<open>never\<close> or a type predicate is not among them);
  \<^item> \<open>TJsonable J\<close>, an object type with a method \<open>toJSON(): J\<close>: what the pattern
    \<open>T extends {toJSON(): infer J}\<close> of the source matches, with the \<open>J\<close> it infers. The
    other properties of such a type play no part in \<open>Jsonify\<close>;
  \<^item> the built-in object types the source names (\<open>Number\<close>, \<open>String\<close>, \<open>Boolean\<close>,
    \<open>Map\<close>, \<open>Set\<close>, the typed arrays), taken nominally;
  \<^item> arrays \<open>E[]\<close>, tuples, and plain object types: a list of properties, each with its
    key, whether it is optional (\<open>k?: V\<close>) and the type of its value. A key is a string,
    a symbol, or the index signature \<open>[x: string]\<close>. A plain object type has no
    \<open>toJSON\<close> method that the pattern above matches;
  \<^item> unions; \<open>never\<close> is the empty union.
  Not covered: \<open>any\<close>, \<open>unknown\<close>, \<open>void\<close>, intersections, readonly arrays, recursive
  types, and plain object types that are structurally one of the built-in interfaces.
  Optional properties are read without \<open>exactOptionalPropertyTypes\<close>: the type of an
  optional property includes \<open>undefined\<close>.

  One test of the source depends on the library of the compiler, which is not among the
  sources: whether the generic function type is assignable to a plain object type
  (line 15). The functions that depend on it take it as the parameter \<open>F\<close>, described
  with \<open>function_extends\<close>, and every theorem holds for every \<open>F\<close>.
\<close>

datatype key = StrKey string | SymKey string | StringIndex

datatype shape =
    TString | TNumber | TBoolean | TNull
  | StrLit string | NumLit int | BoolLit bool
  | PositiveInfinity | NegativeInfinity
  | TUndefined | TSymbol | TBigint | TFunction
  | TJsonable shape
  | BoxedNumber | BoxedString | BoxedBoolean
  | TMap | TSet | TypedArray
  | TArray shape
  | TTuple "shape list"
  | TRecord "(key \<times> bool \<times> shape) list"
  | TUnion "shape list"

type_synonym props = "(key \<times> bool \<times> shape) list"

abbreviation TNever :: shape where
  "TNever \<equiv> TUnion []"

subsection \<open>Unions\<close>

text \<open>
  The members of a type: a union is flat in TypeScript, so the members of a nested union
  are those of its parts; a type that is no union is its own single member, and \<open>never\<close>
  has none.
\<close>

fun members :: "shape \<Rightarrow> shape list" where
  "members (TUnion ms) = concat (map members ms)"
| "members s = [s]"

fun is_union :: "shape \<Rightarrow> bool" where
  "is_union (TUnion _) = True"
| "is_union _ = False"

text \<open>
  Building a union type from a list of types, as the type checker does for the result of
  a distributive conditional type: flat, without duplicates; the union of one type is
  that type.
\<close>

definition mk_union :: "shape list \<Rightarrow> shape" where
  "mk_union ss =
     (case remdups (concat (map members ss)) of
        [m] \<Rightarrow> m
      | ms \<Rightarrow> TUnion ms)"

subsection \<open>Assignability (\<open>extends\<close>)\<close>

text \<open>
  \<open>literal_of m\<close> is the primitive type of a literal type \<open>m\<close>. \<open>PositiveInfinity\<close> and
  \<open>NegativeInfinity\<close> are numeric literal types (\<open>1e999\<close> and \<open>-1e999\<close>).

  \<open>assignable_member m n\<close>: the non-union type \<open>m\<close> is assignable to the non-union type
  \<open>n\<close>, for the pairs in which \<open>n\<close> is a primitive type, \<open>undefined\<close>, \<open>symbol\<close>, \<open>bigint\<close> or
  the generic function type, or \<open>m\<close> is \<open>undefined\<close>: a type is assignable to itself and
  a literal type to its primitive type. (The type checker is in strict mode.) The one
  test of the source with another pair, line 15 of \<open>BaseKeyFilter\<close>, where the generic
  function type is the source and the target is any type, is \<open>function_extends\<close> below.
\<close>

primrec literal_of :: "shape \<Rightarrow> shape option" where
  "literal_of TString = None"
| "literal_of TNumber = None"
| "literal_of TBoolean = None"
| "literal_of TNull = None"
| "literal_of (StrLit _) = Some TString"
| "literal_of (NumLit _) = Some TNumber"
| "literal_of (BoolLit _) = Some TBoolean"
| "literal_of PositiveInfinity = Some TNumber"
| "literal_of NegativeInfinity = Some TNumber"
| "literal_of TUndefined = None"
| "literal_of TSymbol = None"
| "literal_of TBigint = None"
| "literal_of TFunction = None"
| "literal_of (TJsonable _) = None"
| "literal_of BoxedNumber = None"
| "literal_of BoxedString = None"
| "literal_of BoxedBoolean = None"
| "literal_of TMap = None"
| "literal_of TSet = None"
| "literal_of TypedArray = None"
| "literal_of (TArray _) = None"
| "literal_of (TTuple _) = None"
| "literal_of (TRecord _) = None"
| "literal_of (TUnion _) = None"

definition assignable_member :: "shape \<Rightarrow> shape \<Rightarrow> bool" where
  "assignable_member m n = (m = n \<or> literal_of m = Some n)"

text \<open>
  \<open>assignable s t\<close> is \<open>[s] extends [t]\<close>: every member of \<open>s\<close> is assignable to some
  member of \<open>t\<close>. So \<open>never\<close> is assignable to every type.
\<close>

definition assignable :: "shape \<Rightarrow> shape \<Rightarrow> bool" where
  "assignable s t = list_all (\<lambda>m. list_ex (assignable_member m) (members t)) (members s)"

text \<open>\<open>Extract<T, U>\<close> and \<open>Exclude<T, U>\<close> distribute over the members of \<open>T\<close>.\<close>

definition Extract :: "shape \<Rightarrow> shape \<Rightarrow> shape" where
  "Extract T U = mk_union (filter (\<lambda>m. assignable m U) (members T))"

definition Exclude :: "shape \<Rightarrow> shape \<Rightarrow> shape" where
  "Exclude T U = mk_union (filter (\<lambda>m. \<not> assignable m U) (members T))"

subsection \<open>The types that \<open>jsonify.d.ts\<close> imports or declares\<close>

text \<open>\<open>type NotJsonable = ((...args: any[]) => any) | undefined | symbol\<close>\<close>

definition NotJsonable :: shape where
  "NotJsonable = TUnion [TFunction, TUndefined, TSymbol]"

text \<open>
  Modelled from the spec: \<open>JsonPrimitive\<close> of \<open>./basic\<close>, which is not among the sources.
  The spec lists the primitive shapes as string, number, boolean, null.
\<close>

definition JsonPrimitive :: shape where
  "JsonPrimitive = TUnion [TString, TNumber, TBoolean, TNull]"

text \<open>
  Modelled from the spec: \<open>EmptyObject\<close> of \<open>./empty-object\<close>, which is not among the
  sources. The spec calls it the empty-record shape, \<open>{}\<close>.
\<close>

definition EmptyObject :: shape where
  "EmptyObject = TRecord []"

text \<open>\<open>Record<string, number>\<close>: the index signature \<open>[x: string]: number\<close>.\<close>

definition Record_string_number :: shape where
  "Record_string_number = TRecord [(StringIndex, False, TNumber)]"

text \<open>
  Modelled from the spec: \<open>JsonValue\<close> of \<open>./basic\<close>, which is not among the sources.
  \<open>assignable_JsonValue u s\<close>: the type \<open>s\<close> is assignable to the general JSON-value
  shape. By the spec that shape is made of string, number, boolean, null, arrays of
  JSON values and records of JSON values, with optional keys allowed. A union is
  assignable when all its members are. The flag \<open>u\<close> is set for the value of an optional
  key, which may be \<open>undefined\<close> as well; symbol keys are not JSON keys and are not looked
  at.
\<close>

fun assignable_JsonValue :: "bool \<Rightarrow> shape \<Rightarrow> bool" where
  "assignable_JsonValue u TString = True"
| "assignable_JsonValue u TNumber = True"
| "assignable_JsonValue u TBoolean = True"
| "assignable_JsonValue u TNull = True"
| "assignable_JsonValue u (StrLit _) = True"
| "assignable_JsonValue u (NumLit _) = True"
| "assignable_JsonValue u (BoolLit _) = True"
| "assignable_JsonValue u PositiveInfinity = True"
| "assignable_JsonValue u NegativeInfinity = True"
| "assignable_JsonValue u TUndefined = u"
| "assignable_JsonValue u (TArray E) = assignable_JsonValue False E"
| "assignable_JsonValue u (TTuple Es) = list_all (assignable_JsonValue False) Es"
| "assignable_JsonValue u (TRecord ps) =
     list_all (\<lambda>p. (case fst p of SymKey _ \<Rightarrow> True
                      | _ \<Rightarrow> assignable_JsonValue (fst (snd p)) (snd (snd p)))) ps"
| "assignable_JsonValue u (TUnion ms) = list_all (assignable_JsonValue u) ms"
| "assignable_JsonValue u _ = False"

text \<open>
  Modelled from the spec: \<open>Merge\<close> of \<open>./merge\<close>, which is not among the sources. The spec:
  the merged result keeps all required keys and all optional keys, the required one
  winning for a key that is in both.
\<close>

definition Merge :: "props \<Rightarrow> props \<Rightarrow> props" where
  "Merge req opt = req @ filter (\<lambda>p. fst p \<notin> set (map fst req)) opt"

subsection \<open>Object types: the tests of the source and the parts of a type\<close>

text \<open>\<open>T extends object\<close>, for a type that is no union.\<close>

primrec extends_object :: "shape \<Rightarrow> bool" where
  "extends_object TString = False"
| "extends_object TNumber = False"
| "extends_object TBoolean = False"
| "extends_object TNull = False"
| "extends_object (StrLit _) = False"
| "extends_object (NumLit _) = False"
| "extends_object (BoolLit _) = False"
| "extends_object PositiveInfinity = False"
| "extends_object NegativeInfinity = False"
| "extends_object TUndefined = False"
| "extends_object TSymbol = False"
| "extends_object TBigint = False"
| "extends_object TFunction = True"
| "extends_object (TJsonable _) = True"
| "extends_object BoxedNumber = True"
| "extends_object BoxedString = True"
| "extends_object BoxedBoolean = True"
| "extends_object TMap = True"
| "extends_object TSet = True"
| "extends_object TypedArray = True"
| "extends_object (TArray _) = True"
| "extends_object (TTuple _) = True"
| "extends_object (TRecord _) = True"
| "extends_object (TUnion _) = False"

text \<open>
  The tests against the built-in object types, which are nominal here:
  \<open>T extends Number\<close>, \<open>T extends String\<close>, \<open>T extends Boolean\<close>,
  \<open>T extends Map<any, any> | Set<any>\<close> and \<open>T extends TypedArray\<close>.
\<close>

abbreviation extends_Number :: "shape \<Rightarrow> bool" where
  "extends_Number T \<equiv> T = BoxedNumber"

abbreviation extends_String :: "shape \<Rightarrow> bool" where
  "extends_String T \<equiv> T = BoxedString"

abbreviation extends_Boolean :: "shape \<Rightarrow> bool" where
  "extends_Boolean T \<equiv> T = BoxedBoolean"

abbreviation extends_Map_or_Set :: "shape \<Rightarrow> bool" where
  "extends_Map_or_Set T \<equiv> T = TMap \<or> T = TSet"

abbreviation extends_TypedArray :: "shape \<Rightarrow> bool" where
  "extends_TypedArray T \<equiv> T = TypedArray"

text \<open>\<open>T extends {toJSON(): infer J}\<close>: the \<open>J\<close> inferred, if the pattern matches.\<close>

fun toJSON_type :: "shape \<Rightarrow> shape option" where
  "toJSON_type (TJsonable J) = Some J"
| "toJSON_type _ = None"

text \<open>\<open>T extends any[]\<close>: arrays and tuples.\<close>

fun extends_any_array :: "shape \<Rightarrow> bool" where
  "extends_any_array (TArray _) = True"
| "extends_any_array (TTuple _) = True"
| "extends_any_array _ = False"

text \<open>
  A mapped type \<open>{[I in keyof T]: F<T[I]>}\<close> over an array or tuple type \<open>T\<close> is the array
  or tuple of the mapped element types: \<open>elements T\<close> are the \<open>T[I]\<close>, and
  \<open>map_elements F T\<close> is the type of the same kind and length with \<open>F\<close> applied to each.
\<close>

fun elements :: "shape \<Rightarrow> shape list" where
  "elements (TArray E) = [E]"
| "elements (TTuple Es) = Es"
| "elements _ = []"

fun map_elements :: "(shape \<Rightarrow> shape) \<Rightarrow> shape \<Rightarrow> shape" where
  "map_elements F (TArray E) = TArray (F E)"
| "map_elements F (TTuple Es) = TTuple (map F Es)"
| "map_elements F T = T"

lemma map_elements_cong [fundef_cong]:
  "T = T' \<Longrightarrow> (\<And>E. E \<in> set (elements T') \<Longrightarrow> F E = G E) \<Longrightarrow> map_elements F T = map_elements G T'"
  by (cases T') auto

text \<open>The properties of a plain object type; \<open>keyof T\<close>; and \<open>T[Key]\<close>, which for an
  optional property includes \<open>undefined\<close>. The source uses \<open>T[Key]\<close> for keys of \<open>T\<close>
  only (\<open>Key extends keyof Type\<close>).\<close>

fun properties :: "shape \<Rightarrow> props" where
  "properties (TRecord ps) = ps"
| "properties _ = []"

definition keyof :: "shape \<Rightarrow> key list" where
  "keyof T = remdups (map fst (properties T))"

definition is_optional :: "shape \<Rightarrow> key \<Rightarrow> bool" where
  "is_optional T Key = (case map_of (properties T) Key of Some (opt, V) \<Rightarrow> opt | None \<Rightarrow> False)"

definition index_access :: "shape \<Rightarrow> key \<Rightarrow> shape" where
  "index_access T Key =
     (case map_of (properties T) Key of
        Some (opt, V) \<Rightarrow> if opt then mk_union [V, TUndefined] else V
      | None \<Rightarrow> TNever)"

text \<open>\<open>Key extends symbol\<close>\<close>

fun key_extends_symbol :: "key \<Rightarrow> bool" where
  "key_extends_symbol (SymKey _) = True"
| "key_extends_symbol _ = False"

subsection \<open>The key filters\<close>

text \<open>
  \<open>[(...args: any[]) => any] extends [Type[Key]]\<close>, line 15: the generic function type is
  assignable to the type \<open>V\<close> when it is assignable to a member of \<open>V\<close>. It is assignable
  to a function type and to the empty object type \<open>{}\<close>, to which every type but
  \<open>undefined\<close> and \<open>null\<close> is. To another plain object type it is assignable when the
  members that the library declares for functions (the interfaces \<open>Function\<close> and
  \<open>Object\<close>: \<open>length\<close>, \<open>name\<close>, \<open>call\<close>, \<open>toString\<close>, ...) satisfy that type, as they do
  for \<open>{length: number}\<close>. The library is not among the sources, and which
  members it declares depends on the compiler's options: this is the parameter \<open>F\<close> of
  the model. \<open>F ps\<close> says that the generic function type is assignable to the plain
  object type with the properties \<open>ps\<close>, which are not empty. A function type is
  assignable to no other type of the fragment.
\<close>

fun function_member :: "(props \<Rightarrow> bool) \<Rightarrow> shape \<Rightarrow> bool" where
  "function_member F TFunction = True"
| "function_member F (TRecord ps) = (ps = [] \<or> F ps)"
| "function_member F _ = False"

definition function_extends :: "(props \<Rightarrow> bool) \<Rightarrow> shape \<Rightarrow> bool" where
  "function_extends F V = list_ex (function_member F) (members V)"

text \<open>
  An instance of the parameter, for the examples: the library in which the generic
  function type is assignable to \<open>{length: number}\<close> and to no other plain object type
  that is not empty.
\<close>

definition Function_length :: "props \<Rightarrow> bool" where
  "Function_length ps = (ps = [(StrKey ''length'', False, TNumber)])"

text \<open>A filter returns \<open>never\<close> (here \<open>None\<close>) or the key.\<close>

definition BaseKeyFilter :: "(props \<Rightarrow> bool) \<Rightarrow> shape \<Rightarrow> key \<Rightarrow> key option" where
  "BaseKeyFilter F Type Key =
     (if key_extends_symbol Key then None
      else if assignable (index_access Type Key) TSymbol then None
      else if function_extends F (index_access Type Key) then None
      else Some Key)"

definition RequiredKeyFilter :: "(props \<Rightarrow> bool) \<Rightarrow> shape \<Rightarrow> key \<Rightarrow> key option" where
  "RequiredKeyFilter F Type Key =
     (if assignable TUndefined (index_access Type Key) then None
      else BaseKeyFilter F Type Key)"

definition OptionalKeyFilter :: "(props \<Rightarrow> bool) \<Rightarrow> shape \<Rightarrow> key \<Rightarrow> key option" where
  "OptionalKeyFilter F Type Key =
     (if assignable TUndefined (index_access Type Key)
      then (if assignable (index_access Type Key) TUndefined then None
            else BaseKeyFilter F Type Key)
      else None)"

section \<open>\<open>Jsonify F\<close>\<close>

text \<open>
  The weight of a type, by which the recursion of \<open>Jsonify\<close> ends: the number of
  object, array and tuple types in it. Neither forming a union nor removing
  \<open>undefined\<close> from one adds to it.
\<close>

fun weight :: "shape \<Rightarrow> nat" where
  "weight (TJsonable J) = Suc (weight J)"
| "weight (TArray E) = Suc (weight E)"
| "weight (TTuple Es) = Suc (sum_list (map weight Es))"
| "weight (TRecord ps) = Suc (sum_list (map (\<lambda>p. weight (snd (snd p))) ps))"
| "weight (TUnion ms) = sum_list (map weight ms)"
| "weight _ = 0"

lemma weight_members: "m \<in> set (members T) \<Longrightarrow> weight m \<le> weight T"
proof (induction T arbitrary: m rule: members.induct)
  case (1 ms)
  then obtain x where x: "x \<in> set ms" "m \<in> set (members x)" by auto
  then have "weight m \<le> weight x" using 1 by blast
  also have "weight x \<le> sum_list (map weight ms)" using x(1) by (simp add: member_le_sum_list)
  finally show ?case by simp
qed auto

lemma sum_list_weight_concat:
  "sum_list (map weight (concat xss)) = sum_list (map (\<lambda>xs. sum_list (map weight xs)) xss)"
  by (induction xss) auto

lemma sum_list_members: "sum_list (map weight (members T)) = weight T"
proof (induction T rule: members.induct)
  case (1 ms)
  have "sum_list (map weight (members (TUnion ms))) = sum_list (map (\<lambda>m. sum_list (map weight (members m))) ms)"
    by (simp add: sum_list_weight_concat comp_def)
  also have "\<dots> = sum_list (map weight ms)"
    using 1 by (simp cong: map_cong)
  finally show ?case by simp
qed auto

lemma sum_list_remdups_le: "sum_list (map (f::'a \<Rightarrow> nat) (remdups xs)) \<le> sum_list (map f xs)"
  by (induction xs) auto

lemma sum_list_filter_le: "sum_list (map (f::'a \<Rightarrow> nat) (filter P xs)) \<le> sum_list (map f xs)"
  by (induction xs) auto

lemma weight_mk_union: "weight (mk_union ss) \<le> sum_list (map weight ss)"
proof -
  have "weight (mk_union ss) = sum_list (map weight (remdups (concat (map members ss))))"
    by (auto simp: mk_union_def split: list.splits)
  also have "\<dots> \<le> sum_list (map weight (concat (map members ss)))"
    by (rule sum_list_remdups_le)
  also have "\<dots> = sum_list (map weight ss)"
    by (induction ss) (auto simp: sum_list_members)
  finally show ?thesis .
qed

lemma weight_Exclude: "weight (Exclude T U) \<le> weight T"
  unfolding Exclude_def
  using weight_mk_union [of "filter (\<lambda>m. \<not> assignable m U) (members T)"]
    sum_list_filter_le [of weight "\<lambda>m. \<not> assignable m U" "members T"]
  by (simp add: sum_list_members)

lemma weight_index_access: "Key \<in> set (keyof T) \<Longrightarrow> weight (index_access T Key) < weight T"
proof (cases T)
  case (TRecord ps)
  assume "Key \<in> set (keyof T)"
  then obtain opt V where m: "map_of ps Key = Some (opt, V)"
    using TRecord by (auto simp: keyof_def weak_map_of_SomeI dest!: weak_map_of_SomeI) 
  then have "(Key, opt, V) \<in> set ps" by (simp add: map_of_SomeD)
  then have "weight V \<le> sum_list (map (\<lambda>p. weight (snd (snd p))) ps)"
    using member_le_sum_list [of "weight V" "map (\<lambda>p. weight (snd (snd p))) ps"] by force
  moreover have "weight (index_access T Key) \<le> weight V"
    using m TRecord weight_mk_union [of "[V, TUndefined]"] by (simp add: index_access_def)
  ultimately show ?thesis using TRecord by simp
qed (auto simp: keyof_def)

lemma weight_elements: "E \<in> set (elements T) \<Longrightarrow> weight E < weight T"
  by (cases T) (auto simp: less_Suc_eq_le member_le_sum_list)

lemma weight_toJSON_type: "toJSON_type T = Some J \<Longrightarrow> weight J < weight T"
  by (cases T) auto

text \<open>
  \<open>Jsonify<T>\<close>. The first test, \<open>[Extract<T, NotJsonable | bigint>] extends [never]\<close>, looks
  at \<open>T\<close> as a whole. The conditional types after it test the bare type parameter \<open>T\<close>, so
  they distribute over a union: \<open>Jsonify_member\<close> is the chain of tests for one member,
  and the results are joined into a union. \<open>(() => J) extends (() => JsonValue)\<close> is
  the assignability of \<open>J\<close> to \<open>JsonValue\<close>. The mapped type over an array or tuple maps
  its elements. The two mapped types over a plain object type go through \<open>keyof T\<close>; the first keeps
  the modifiers of \<open>T\<close>, the second makes its keys optional.
\<close>

function Jsonify :: "(props \<Rightarrow> bool) \<Rightarrow> shape \<Rightarrow> shape"
  and Jsonify_member :: "(props \<Rightarrow> bool) \<Rightarrow> shape \<Rightarrow> shape" where
  "Jsonify F T =
     (if assignable (Extract T (TUnion [NotJsonable, TBigint])) TNever
      then (if is_union T then mk_union (map (Jsonify_member F) (members T))
            else Jsonify_member F T)
      else TNever)"
| "Jsonify_member F T =
     (if assignable T (TUnion [PositiveInfinity, NegativeInfinity]) then TNull
      else if assignable T JsonPrimitive then T
      else if extends_object T then
        (case toJSON_type T of
           Some J \<Rightarrow> if assignable_JsonValue False J then J else Jsonify F J
         | None \<Rightarrow>
            if extends_Number T then TNumber
            else if extends_String T then TString
            else if extends_Boolean T then TBoolean
            else if extends_Map_or_Set T then EmptyObject
            else if extends_TypedArray T then Record_string_number
            else if extends_any_array T
              then map_elements (\<lambda>E. if assignable E NotJsonable then TNull else Jsonify F E) T
            else TRecord (Merge
              (map (\<lambda>Key. (Key, is_optional T Key, Jsonify F (index_access T Key)))
                 (filter (\<lambda>Key. RequiredKeyFilter F T Key = Some Key) (keyof T)))
              (map (\<lambda>Key. (Key, True, Jsonify F (Exclude (index_access T Key) TUndefined)))
                 (filter (\<lambda>Key. OptionalKeyFilter F T Key = Some Key) (keyof T)))))
      else TNever)"
  by pat_completeness auto
termination
proof (relation "measure (\<lambda>x. case x of Inl (F, T) \<Rightarrow> 2 * weight T + 1
    | Inr (F, T) \<Rightarrow> 2 * weight T)", goal_cases)
  case 1
  show ?case by simp
next
  case (2 F T m)
  then show ?case using weight_members [of m T] by simp
next
  case (3 F T)
  show ?case by simp
next
  case (4 F T E)
  then show ?case using weight_elements [of E T] by simp
next
  case (5 F T Key)
  then show ?case using weight_index_access [of Key T] by simp
next
  case (6 F T Key)
  then show ?case
    using weight_index_access [of Key T] weight_Exclude [of "index_access T Key" TUndefined]
    by simp
next
  case (7 F T J)
  then show ?case using weight_toJSON_type [of T J] by simp
qed

declare Jsonify.simps [simp del] Jsonify_member.simps [simp del]

text \<open>
  The two mapped types that \<open>Jsonify\<close> merges for a plain object type \<open>T\<close>:
  \<open>{[Key in keyof T as RequiredKeyFilter<T, Key>]: Jsonify<T[Key]>}\<close> and
  \<open>{[Key in keyof T as OptionalKeyFilter<T, Key>]?: Jsonify<Exclude<T[Key], undefined>>}\<close>.
\<close>

definition required_properties :: "(props \<Rightarrow> bool) \<Rightarrow> shape \<Rightarrow> props" where
  "required_properties F T =
     map (\<lambda>Key. (Key, is_optional T Key, Jsonify F (index_access T Key)))
       (filter (\<lambda>Key. RequiredKeyFilter F T Key = Some Key) (keyof T))"

definition optional_properties :: "(props \<Rightarrow> bool) \<Rightarrow> shape \<Rightarrow> props" where
  "optional_properties F T =
     map (\<lambda>Key. (Key, True, Jsonify F (Exclude (index_access T Key) TUndefined)))
       (filter (\<lambda>Key. OptionalKeyFilter F T Key = Some Key) (keyof T))"

section \<open>Unions and the first test\<close>

lemma members_nonunion: "m \<in> set (members T) \<Longrightarrow> \<not> is_union m"
  by (induction T arbitrary: m rule: members.induct) auto

lemma members_self: "\<not> is_union m \<Longrightarrow> members m = [m]"
  by (cases m) auto

lemma concat_members_id: "(\<And>m. m \<in> set ms \<Longrightarrow> \<not> is_union m) \<Longrightarrow> concat (map members ms) = ms"
  by (induction ms) (auto simp: members_self)

lemma members_members: "concat (map members (members T)) = members T"
  by (rule concat_members_id) (rule members_nonunion)

lemma members_mk_union: "members (mk_union ss) = remdups (concat (map members ss))"
proof -
  let ?ms = "remdups (concat (map members ss))"
  have nu: "\<And>m. m \<in> set ?ms \<Longrightarrow> \<not> is_union m"
    using members_nonunion by auto
  show ?thesis
  proof (cases "\<exists>m. ?ms = [m]")
    case True
    then obtain m where m: "?ms = [m]" by blast
    then have "\<not> is_union m" using nu by simp
    then show ?thesis using m by (simp add: mk_union_def members_self)
  next
    case False
    then have "mk_union ss = TUnion ?ms"
      by (auto simp: mk_union_def split: list.splits)
    then show ?thesis using concat_members_id [of ?ms] nu by simp
  qed
qed

lemma assignable_TNever: "assignable X TNever \<longleftrightarrow> members X = []"
  by (cases "members X") (auto simp: assignable_def)

lemma assignable_nonunion:
  "\<not> is_union m \<Longrightarrow> assignable m U \<longleftrightarrow> (\<exists>n \<in> set (members U). assignable_member m n)"
  by (simp add: assignable_def members_self list_ex_iff)

text \<open>
  The members that the first test of \<open>Jsonify\<close> extracts: those assignable to
  \<open>NotJsonable | bigint\<close>.
\<close>

definition rejected :: "shape \<Rightarrow> bool" where
  "rejected m \<longleftrightarrow> m = TFunction \<or> m = TUndefined \<or> m = TSymbol \<or> m = TBigint"

lemma literal_of_Some: "literal_of m = Some n \<Longrightarrow> n = TString \<or> n = TNumber \<or> n = TBoolean"
  by (cases m) auto

lemma assignable_rejected:
  "\<not> is_union m \<Longrightarrow> assignable m (TUnion [NotJsonable, TBigint]) \<longleftrightarrow> rejected m"
  by (auto simp: assignable_nonunion NotJsonable_def assignable_member_def rejected_def dest: literal_of_Some)

lemma Extract_never:
  "assignable (Extract T (TUnion [NotJsonable, TBigint])) TNever \<longleftrightarrow> (\<forall>m \<in> set (members T). \<not> rejected m)"
proof -
  have "filter (\<lambda>m. assignable m (TUnion [NotJsonable, TBigint])) (members T) = filter rejected (members T)"
    by (rule filter_cong) (auto simp: assignable_rejected members_nonunion)
  moreover have "concat (map members (filter rejected (members T))) = filter rejected (members T)"
    by (rule concat_members_id) (auto simp: members_nonunion)
  ultimately show ?thesis
    by (simp add: assignable_TNever Extract_def members_mk_union filter_empty_conv)
qed

lemma Jsonify_rejected: "\<exists>m \<in> set (members S). rejected m \<Longrightarrow> Jsonify F S = TNever"
  by (subst Jsonify.simps) (auto simp add: Extract_never)

lemma Jsonify_nonunion:
  "\<not> is_union S \<Longrightarrow> Jsonify F S = (if rejected S then TNever else Jsonify_member F S)"
  by (subst Jsonify.simps) (simp add: Extract_never members_self)


lemma Jsonify_primitive:
  "Jsonify F TString = TString" "Jsonify F TNumber = TNumber" "Jsonify F TBoolean = TBoolean"
  "Jsonify F TNull = TNull" "Jsonify F (StrLit s) = StrLit s" "Jsonify F (NumLit n) = NumLit n"
  "Jsonify F (BoolLit b) = BoolLit b"
  by (simp_all add: Jsonify_nonunion rejected_def Jsonify_member.simps assignable_nonunion
      assignable_member_def JsonPrimitive_def)

lemma Jsonify_TArray:
  "Jsonify F (TArray E) = TArray (if assignable E NotJsonable then TNull else Jsonify F E)"
  by (simp add: Jsonify_nonunion rejected_def Jsonify_member.simps assignable_nonunion
      assignable_member_def JsonPrimitive_def)

lemma Jsonify_TTuple:
  "Jsonify F (TTuple Es) =
     TTuple (map (\<lambda>E. if assignable E NotJsonable then TNull else Jsonify F E) Es)"
  by (simp add: Jsonify_nonunion rejected_def Jsonify_member.simps assignable_nonunion
      assignable_member_def JsonPrimitive_def)

section \<open>Primitive types, infinities and \<open>toJSON\<close>\<close>

text \<open>
  C8: \<open>Jsonify\<close> maps the positive-infinity and the negative-infinity shape to the null
  shape, and maps every primitive shape (string, number, boolean, null) and every literal
  shape of these to itself.
\<close>

theorem Jsonify_infinity_and_primitives:
  "Jsonify F PositiveInfinity = TNull \<and> Jsonify F NegativeInfinity = TNull
   \<and> Jsonify F TString = TString \<and> Jsonify F TNumber = TNumber
   \<and> Jsonify F TBoolean = TBoolean \<and> Jsonify F TNull = TNull
   \<and> (\<forall>s. Jsonify F (StrLit s) = StrLit s)
   \<and> (\<forall>n. Jsonify F (NumLit n) = NumLit n)
   \<and> (\<forall>b. Jsonify F (BoolLit b) = BoolLit b)"
  by (simp add: Jsonify_nonunion rejected_def Jsonify_member.simps assignable_nonunion
      assignable_member_def JsonPrimitive_def)

text \<open>
  C7: for every object type with a method \<open>toJSON(): J\<close>, \<open>Jsonify\<close> gives \<open>J\<close> itself when
  \<open>J\<close> is assignable to the JSON-value shape and \<open>Jsonify J\<close> otherwise; a Date-like
  object whose \<open>toJSON\<close> returns a string projects to string.
\<close>

theorem Jsonify_toJSON:
  "Jsonify F (TJsonable J) = (if assignable_JsonValue False J then J else Jsonify F J)
   \<and> Jsonify F (TJsonable TString) = TString"
  by (simp add: Jsonify_nonunion rejected_def Jsonify_member.simps assignable_nonunion
      assignable_member_def JsonPrimitive_def)

section \<open>Types that cannot be serialised\<close>

text \<open>
  C3: when a function, symbol, undefined or bigint shape is among the members of \<open>S\<close>
  (\<open>S\<close> is such a shape itself, or a union with such a member), \<open>Jsonify S\<close> is the empty
  shape; so it is for each of the four bare shapes and for the union of string and
  function.
\<close>

theorem Jsonify_not_jsonable_member:
  "((\<exists>m \<in> set (members S). m = TFunction \<or> m = TSymbol \<or> m = TUndefined \<or> m = TBigint)
      \<longrightarrow> Jsonify F S = TNever)
   \<and> Jsonify F TFunction = TNever \<and> Jsonify F TSymbol = TNever
   \<and> Jsonify F TUndefined = TNever \<and> Jsonify F TBigint = TNever
   \<and> Jsonify F (TUnion [TString, TFunction]) = TNever"
proof -
  have "Jsonify F S = TNever"
    if "\<exists>m \<in> set (members S). m = TFunction \<or> m = TSymbol \<or> m = TUndefined \<or> m = TBigint" for S
    using that by (intro Jsonify_rejected) (auto simp: rejected_def)
  then show ?thesis by simp
qed

theorem Jsonify_not_jsonable_member_witness:
  "(\<exists>m \<in> set (members (TUnion [TNumber, TUnion [TNull, TSymbol]])).
      m = TFunction \<or> m = TSymbol \<or> m = TUndefined \<or> m = TBigint)
   \<and> Jsonify Function_length (TUnion [TNumber, TUnion [TNull, TSymbol]]) = TNever"
  using Jsonify_not_jsonable_member [of "TUnion [TNumber, TUnion [TNull, TSymbol]]" Function_length]
  by simp

section \<open>Arrays and tuples\<close>

text \<open>
  C4, as the code has it: for every array and every tuple shape, \<open>Jsonify\<close> maps each
  element shape \<open>E\<close>, keeping the length: to the null shape when \<open>E\<close> is assignable to
  \<open>NotJsonable\<close>, which is function, undefined or symbol, and to \<open>Jsonify E\<close> otherwise.
  \<open>bigint\<close> is not assignable to \<open>NotJsonable\<close>: a bigint element becomes the empty shape.
  The tuple of string, function and number projects to string, null, number.
\<close>

theorem Jsonify_array_elements:
  "Jsonify F (TArray E) = TArray (if assignable E NotJsonable then TNull else Jsonify F E)
   \<and> Jsonify F (TTuple Es) =
       TTuple (map (\<lambda>E. if assignable E NotJsonable then TNull else Jsonify F E) Es)
   \<and> length (elements (Jsonify F (TTuple Es))) = length Es
   \<and> assignable TFunction NotJsonable \<and> assignable TSymbol NotJsonable
   \<and> assignable TUndefined NotJsonable
   \<and> \<not> assignable TBigint NotJsonable \<and> Jsonify F TBigint = TNever
   \<and> Jsonify F (TTuple [TString, TFunction, TNumber]) = TTuple [TString, TNull, TNumber]"
  by (simp add: Jsonify_nonunion rejected_def Jsonify_member.simps assignable_nonunion
      assignable_member_def JsonPrimitive_def NotJsonable_def)

text \<open>
  C4 as the spec has it fails: the one-element tuple of bigint does not project to the
  tuple of null.
\<close>

theorem Jsonify_bigint_element_counterexample:
  "Jsonify Function_length (TTuple [TBigint]) = TTuple [TNever] \<and> Jsonify Function_length (TTuple [TBigint]) \<noteq> TTuple [TNull]"
  by (simp add: Jsonify_nonunion rejected_def Jsonify_member.simps assignable_nonunion
      assignable_member_def JsonPrimitive_def NotJsonable_def)

section \<open>Plain object types\<close>

lemma Jsonify_TRecord:
  "Jsonify F (TRecord ps) =
     TRecord (Merge (required_properties F (TRecord ps)) (optional_properties F (TRecord ps)))"
  by (simp add: Jsonify_nonunion rejected_def Jsonify_member.simps assignable_nonunion
      assignable_member_def JsonPrimitive_def required_properties_def optional_properties_def)

lemma keys_required_properties:
  "map fst (required_properties F T) = filter (\<lambda>Key. RequiredKeyFilter F T Key = Some Key) (keyof T)"
  by (simp add: required_properties_def comp_def)

lemma keys_optional_properties:
  "map fst (optional_properties F T) = filter (\<lambda>Key. OptionalKeyFilter F T Key = Some Key) (keyof T)"
  by (simp add: optional_properties_def comp_def)

lemma distinct_keyof: "distinct (keyof T)"
  by (simp add: keyof_def)

lemma filters_exclusive:
  "\<not> (RequiredKeyFilter F T Key = Some Key \<and> OptionalKeyFilter F T Key = Some Key)"
  by (simp add: RequiredKeyFilter_def OptionalKeyFilter_def)

lemma halves_disjoint:
  "set (map fst (required_properties F T)) \<inter> set (map fst (optional_properties F T)) = {}"
  unfolding keys_required_properties keys_optional_properties
  using filters_exclusive [of F T] by auto

lemma Merge_disjoint:
  "set (map fst req) \<inter> set (map fst opt) = {} \<Longrightarrow> Merge req opt = req @ opt"
  unfolding Merge_def by (simp add: filter_id_conv disjoint_iff) (metis fst_conv image_eqI)

lemma Merge_halves:
  "Merge (required_properties F T) (optional_properties F T) =
     required_properties F T @ optional_properties F T"
  by (rule Merge_disjoint) (rule halves_disjoint)

lemma distinct_Merge_halves:
  "distinct (map fst (Merge (required_properties F T) (optional_properties F T)))"
  unfolding Merge_halves map_append
  using halves_disjoint [of F T]
  by (simp add: keys_required_properties keys_optional_properties distinct_keyof)

lemma assignable_to_undefined:
  "assignable V TUndefined \<longleftrightarrow> (\<forall>m \<in> set (members V). m = TUndefined)"
proof -
  have "list_ex (assignable_member m) [TUndefined] \<longleftrightarrow> m = TUndefined" for m
    by (cases m) (auto simp: assignable_member_def)
  then show ?thesis by (simp add: assignable_def list_all_iff)
qed

lemma assignable_to_symbol:
  "assignable V TSymbol \<longleftrightarrow> (\<forall>m \<in> set (members V). m = TSymbol)"
proof -
  have "list_ex (assignable_member m) [TSymbol] \<longleftrightarrow> m = TSymbol" for m
    by (cases m) (auto simp: assignable_member_def)
  then show ?thesis by (simp add: assignable_def list_all_iff)
qed

lemma assignable_undefined: "assignable TUndefined V \<longleftrightarrow> TUndefined \<in> set (members V)"
  by (auto simp: assignable_nonunion assignable_member_def)

lemma function_extends_function: "TFunction \<in> set (members V) \<Longrightarrow> function_extends F V"
  unfolding function_extends_def list_ex_iff by (rule bexI [of _ TFunction]) simp_all

lemma function_extends_mk_union:
  "function_extends F (mk_union ss) \<longleftrightarrow> (\<exists>s \<in> set ss. function_extends F s)"
  by (auto simp: function_extends_def list_ex_iff members_mk_union)

lemma map_of_required:
  "RequiredKeyFilter F T Key = Some Key \<Longrightarrow> Key \<in> set (keyof T) \<Longrightarrow>
   map_of (required_properties F T) Key = Some (is_optional T Key, Jsonify F (index_access T Key))"
  unfolding required_properties_def
  by (rule map_of_is_SomeI) (auto simp: comp_def distinct_keyof)

lemma map_of_optional:
  "OptionalKeyFilter F T Key = Some Key \<Longrightarrow> Key \<in> set (keyof T) \<Longrightarrow>
   map_of (optional_properties F T) Key = Some (True, Jsonify F (Exclude (index_access T Key) TUndefined))"
  unfolding optional_properties_def
  by (rule map_of_is_SomeI) (auto simp: comp_def distinct_keyof)

lemma map_of_required_None:
  "RequiredKeyFilter F T Key \<noteq> Some Key \<Longrightarrow> map_of (required_properties F T) Key = None"
proof -
  assume "RequiredKeyFilter F T Key \<noteq> Some Key"
  then have "Key \<notin> set (map fst (required_properties F T))"
    unfolding keys_required_properties by simp
  then show ?thesis by (simp add: map_of_eq_None_iff)
qed

lemma is_optional_undefined:
  "Key \<in> set (keyof T) \<Longrightarrow> is_optional T Key \<Longrightarrow> TUndefined \<in> set (members (index_access T Key))"
  by (auto simp: is_optional_def index_access_def members_mk_union split: option.splits)

lemma keys_Jsonify_TRecord:
  "set (map fst (properties (Jsonify F (TRecord ps)))) =
     {Key \<in> set (keyof (TRecord ps)). RequiredKeyFilter F (TRecord ps) Key = Some Key
        \<or> OptionalKeyFilter F (TRecord ps) Key = Some Key}"
  unfolding Jsonify_TRecord properties.simps Merge_halves map_append
    keys_required_properties keys_optional_properties
  by auto

text \<open>
  C10: for every plain object type and every key, the required and the optional filter
  do not both keep the key; so the two mapped types have no key in common, their merge
  is the one followed by the other, and no key occurs twice in the result.
\<close>

theorem required_optional_disjoint:
  "\<not> (RequiredKeyFilter F (TRecord ps) Key = Some Key \<and> OptionalKeyFilter F (TRecord ps) Key = Some Key)
   \<and> set (map fst (required_properties F (TRecord ps)))
       \<inter> set (map fst (optional_properties F (TRecord ps))) = {}
   \<and> Merge (required_properties F (TRecord ps)) (optional_properties F (TRecord ps)) =
       required_properties F (TRecord ps) @ optional_properties F (TRecord ps)
   \<and> distinct (map fst (properties (Jsonify F (TRecord ps))))"
  using filters_exclusive [of F "TRecord ps" Key] halves_disjoint [of F "TRecord ps"]
    Merge_halves [of F "TRecord ps"] distinct_Merge_halves [of F "TRecord ps"]
  by (simp add: Jsonify_TRecord)

text \<open>
  C9: in a plain object type, a key whose value type has a function type among its
  members is not a key of the result, and so is every key to whose value type the
  generic function type is assignable, which is the test of \<open>BaseKeyFilter\<close>;
  \<open>{a: string | function, b: number}\<close> projects to \<open>{b: number}\<close>.
\<close>

theorem function_member_key_excluded:
  "(TFunction \<in> set (members (index_access (TRecord ps) Key))
      \<longrightarrow> Key \<notin> set (map fst (properties (Jsonify F (TRecord ps)))))
   \<and> (function_extends F (index_access (TRecord ps) Key)
      \<longrightarrow> Key \<notin> set (map fst (properties (Jsonify F (TRecord ps)))))
   \<and> Jsonify F (TRecord [(StrKey ''a'', False, TUnion [TString, TFunction]),
                        (StrKey ''b'', False, TNumber)])
       = TRecord [(StrKey ''b'', False, TNumber)]"
proof -
  have "Key \<notin> set (map fst (properties (Jsonify F (TRecord ps))))"
    if "function_extends F (index_access (TRecord ps) Key)"
  proof -
    have "BaseKeyFilter F (TRecord ps) Key = None"
      using that by (simp add: BaseKeyFilter_def)
    then show ?thesis
      unfolding keys_Jsonify_TRecord
      by (simp add: RequiredKeyFilter_def OptionalKeyFilter_def)
  qed
  moreover have "Jsonify F (TRecord [(StrKey ''a'', False, TUnion [TString, TFunction]),
                        (StrKey ''b'', False, TNumber)])
       = TRecord [(StrKey ''b'', False, TNumber)]"
    by (simp add: Jsonify_TRecord Merge_def required_properties_def optional_properties_def
        keyof_def index_access_def is_optional_def RequiredKeyFilter_def OptionalKeyFilter_def
        BaseKeyFilter_def function_extends_def assignable_undefined assignable_to_symbol
        Jsonify_primitive)
  ultimately show ?thesis
    using function_extends_function [of "index_access (TRecord ps) Key" F] by blast
qed

theorem function_member_key_excluded_witness:
  "TFunction \<in> set (members (index_access
       (TRecord [(StrKey ''f'', True, TUnion [TNumber, TFunction])]) (StrKey ''f'')))
   \<and> function_extends Function_length (index_access
       (TRecord [(StrKey ''f'', True, TUnion [TNumber, TFunction])]) (StrKey ''f''))
   \<and> StrKey ''f'' \<notin> set (map fst (properties (Jsonify Function_length
       (TRecord [(StrKey ''f'', True, TUnion [TNumber, TFunction])]))))"
proof -
  have h: "TFunction \<in> set (members (index_access
       (TRecord [(StrKey ''f'', True, TUnion [TNumber, TFunction])]) (StrKey ''f'')))"
    by (simp add: index_access_def members_mk_union)
  then have h': "function_extends Function_length (index_access
       (TRecord [(StrKey ''f'', True, TUnion [TNumber, TFunction])]) (StrKey ''f''))"
    by (rule function_extends_function)
  show ?thesis
    using h h' function_member_key_excluded
      [of "[(StrKey ''f'', True, TUnion [TNumber, TFunction])]" "StrKey ''f''" Function_length]
    by blast
qed

text \<open>
  C6: in a plain object type, take a key that the base filter keeps. If its value type
  has \<open>undefined\<close> among its members and a member other than \<open>undefined\<close>, the result has
  the key as an optional key, with the projection of the value type without \<open>undefined\<close>.
  If its value type has no member \<open>undefined\<close>, the key was required and the result has
  it as a required key, with the projection of the value type.
  \<open>{a: string, b: undefined | number}\<close> projects to \<open>{a: string, b?: number}\<close>.
\<close>

theorem optional_and_required_keys:
  "(Key \<in> set (keyof (TRecord ps)) \<and> BaseKeyFilter F (TRecord ps) Key = Some Key
      \<and> TUndefined \<in> set (members (index_access (TRecord ps) Key))
      \<and> (\<exists>m \<in> set (members (index_access (TRecord ps) Key)). m \<noteq> TUndefined)
      \<longrightarrow> map_of (properties (Jsonify F (TRecord ps))) Key =
            Some (True, Jsonify F (Exclude (index_access (TRecord ps) Key) TUndefined)))
   \<and> (Key \<in> set (keyof (TRecord ps)) \<and> BaseKeyFilter F (TRecord ps) Key = Some Key
      \<and> TUndefined \<notin> set (members (index_access (TRecord ps) Key))
      \<longrightarrow> \<not> is_optional (TRecord ps) Key
          \<and> map_of (properties (Jsonify F (TRecord ps))) Key =
            Some (False, Jsonify F (index_access (TRecord ps) Key)))
   \<and> Jsonify F (TRecord [(StrKey ''a'', False, TString),
                        (StrKey ''b'', False, TUnion [TUndefined, TNumber])])
       = TRecord [(StrKey ''a'', False, TString), (StrKey ''b'', True, TNumber)]"
proof -
  let ?T = "TRecord ps"
  let ?V = "index_access ?T Key"
  have u: "assignable TUndefined V \<longleftrightarrow> TUndefined \<in> set (members V)" for V
    by (rule assignable_undefined)
  have opt: "map_of (properties (Jsonify F ?T)) Key = Some (True, Jsonify F (Exclude ?V TUndefined))"
    if "Key \<in> set (keyof ?T)" "BaseKeyFilter F ?T Key = Some Key"
      "TUndefined \<in> set (members ?V)" "\<exists>m \<in> set (members ?V). m \<noteq> TUndefined"
  proof -
    have "OptionalKeyFilter F ?T Key = Some Key"
      using that by (auto simp: OptionalKeyFilter_def u assignable_to_undefined)
    moreover have "RequiredKeyFilter F ?T Key \<noteq> Some Key"
      using that by (simp add: RequiredKeyFilter_def u)
    ultimately show ?thesis
      using that(1)
      by (simp add: Jsonify_TRecord Merge_halves map_of_append map_add_def
          map_of_required_None map_of_optional)
  qed
  have req: "\<not> is_optional ?T Key
      \<and> map_of (properties (Jsonify F ?T)) Key = Some (False, Jsonify F ?V)"
    if "Key \<in> set (keyof ?T)" "BaseKeyFilter F ?T Key = Some Key"
      "TUndefined \<notin> set (members ?V)"
  proof -
    have n: "\<not> is_optional ?T Key"
      using that is_optional_undefined [of Key ?T] by blast
    have "RequiredKeyFilter F ?T Key = Some Key"
      using that by (simp add: RequiredKeyFilter_def u)
    then show ?thesis
      using that(1) n
      by (simp add: Jsonify_TRecord Merge_halves map_of_append map_add_def map_of_required)
  qed
  have "Jsonify F (TRecord [(StrKey ''a'', False, TString),
                        (StrKey ''b'', False, TUnion [TUndefined, TNumber])])
       = TRecord [(StrKey ''a'', False, TString), (StrKey ''b'', True, TNumber)]"
    by code_simp
  then show ?thesis using opt req by blast
qed


theorem optional_and_required_keys_witness:
  "(StrKey ''b'' \<in> set (keyof (TRecord [(StrKey ''a'', False, TString),
                        (StrKey ''b'', False, TUnion [TUndefined, TNumber])]))
    \<and> BaseKeyFilter Function_length (TRecord [(StrKey ''a'', False, TString),
                        (StrKey ''b'', False, TUnion [TUndefined, TNumber])]) (StrKey ''b'')
        = Some (StrKey ''b'')
    \<and> TUndefined \<in> set (members (index_access (TRecord [(StrKey ''a'', False, TString),
                        (StrKey ''b'', False, TUnion [TUndefined, TNumber])]) (StrKey ''b'')))
    \<and> (\<exists>m \<in> set (members (index_access (TRecord [(StrKey ''a'', False, TString),
                        (StrKey ''b'', False, TUnion [TUndefined, TNumber])]) (StrKey ''b''))).
          m \<noteq> TUndefined)
    \<and> map_of (properties (Jsonify Function_length (TRecord [(StrKey ''a'', False, TString),
                        (StrKey ''b'', False, TUnion [TUndefined, TNumber])]))) (StrKey ''b'')
        = Some (True, TNumber))
   \<and> (StrKey ''a'' \<in> set (keyof (TRecord [(StrKey ''a'', False, TString),
                        (StrKey ''b'', False, TUnion [TUndefined, TNumber])]))
    \<and> BaseKeyFilter Function_length (TRecord [(StrKey ''a'', False, TString),
                        (StrKey ''b'', False, TUnion [TUndefined, TNumber])]) (StrKey ''a'')
        = Some (StrKey ''a'')
    \<and> TUndefined \<notin> set (members (index_access (TRecord [(StrKey ''a'', False, TString),
                        (StrKey ''b'', False, TUnion [TUndefined, TNumber])]) (StrKey ''a'')))
    \<and> map_of (properties (Jsonify Function_length (TRecord [(StrKey ''a'', False, TString),
                        (StrKey ''b'', False, TUnion [TUndefined, TNumber])]))) (StrKey ''a'')
        = Some (False, TString))"
proof -
  let ?T = "TRecord [(StrKey ''a'', False, TString),
                     (StrKey ''b'', False, TUnion [TUndefined, TNumber])]"
  have b: "StrKey ''b'' \<in> set (keyof ?T) \<and> BaseKeyFilter Function_length ?T (StrKey ''b'') = Some (StrKey ''b'')
      \<and> TUndefined \<in> set (members (index_access ?T (StrKey ''b'')))
      \<and> (\<exists>m \<in> set (members (index_access ?T (StrKey ''b''))). m \<noteq> TUndefined)"
    by code_simp
  have a: "StrKey ''a'' \<in> set (keyof ?T) \<and> BaseKeyFilter Function_length ?T (StrKey ''a'') = Some (StrKey ''a'')
      \<and> TUndefined \<notin> set (members (index_access ?T (StrKey ''a'')))"
    by code_simp
  have vb: "Jsonify Function_length (Exclude (index_access ?T (StrKey ''b'')) TUndefined) = TNumber"
    by code_simp
  have va: "Jsonify Function_length (index_access ?T (StrKey ''a'')) = TString"
    by code_simp
  show ?thesis
    using a b va vb
      optional_and_required_keys [of "StrKey ''b''" "[(StrKey ''a'', False, TString),
                     (StrKey ''b'', False, TUnion [TUndefined, TNumber])]" Function_length]
      optional_and_required_keys [of "StrKey ''a''" "[(StrKey ''a'', False, TString),
                     (StrKey ''b'', False, TUnion [TUndefined, TNumber])]" Function_length]
    by simp
qed




section \<open>The result is a JSON value\<close>

lemma JsonValue_members:
  "assignable_JsonValue u T \<longleftrightarrow> (\<forall>m \<in> set (members T). assignable_JsonValue u m)"
  by (induction T rule: members.induct) (auto simp: list_all_iff)

lemma JsonValue_mk_union:
  "assignable_JsonValue u (mk_union ss) \<longleftrightarrow> (\<forall>s \<in> set ss. assignable_JsonValue u s)"
proof -
  have "assignable_JsonValue u (mk_union ss)
      \<longleftrightarrow> (\<forall>m \<in> set (members (mk_union ss)). assignable_JsonValue u m)"
    by (rule JsonValue_members)
  also have "\<dots> \<longleftrightarrow> (\<forall>s \<in> set ss. \<forall>m \<in> set (members s). assignable_JsonValue u m)"
    by (auto simp: members_mk_union)
  also have "\<dots> \<longleftrightarrow> (\<forall>s \<in> set ss. assignable_JsonValue u s)"
    using JsonValue_members by blast
  finally show ?thesis .
qed

lemma JsonValue_optional: "assignable_JsonValue False T \<Longrightarrow> assignable_JsonValue u T"
  by (induction u T rule: assignable_JsonValue.induct) (auto simp: list_all_iff)

lemma JsonValue_primitive_member:
  "assignable_member m n \<Longrightarrow> n \<in> set (members JsonPrimitive) \<Longrightarrow> assignable_JsonValue u m"
  by (cases m) (auto simp: assignable_member_def JsonPrimitive_def)

lemma JsonValue_primitive: "assignable T JsonPrimitive \<Longrightarrow> assignable_JsonValue u T"
  unfolding JsonValue_members [of u T]
  by (auto simp: assignable_def list_all_iff list_ex_iff intro: JsonValue_primitive_member)

lemma JsonValue_Merge:
  "list_all P req \<Longrightarrow> list_all P opt \<Longrightarrow> list_all P (Merge req opt)"
  by (auto simp: Merge_def list_all_iff)

lemma JsonValue_map_elements:
  "(\<And>E. E \<in> set (elements T) \<Longrightarrow> assignable_JsonValue False (F E)) \<Longrightarrow> extends_any_array T \<Longrightarrow>
   assignable_JsonValue False (map_elements F T)"
  by (cases T) (auto simp: list_all_iff)

lemma Jsonify_is_JsonValue:
  "assignable_JsonValue False (Jsonify F T)"
  "assignable_JsonValue False (Jsonify_member F T)"
proof (induction F T and F T rule: Jsonify_Jsonify_member.induct)
  case (1 F T)
  show ?case
  proof (cases "assignable (Extract T (TUnion [NotJsonable, TBigint])) TNever")
    case True
    then show ?thesis
      using 1 by (subst Jsonify.simps) (simp add: JsonValue_mk_union)
  next
    case False
    then show ?thesis by (subst Jsonify.simps) simp
  qed
next
  case (2 F T)
  show ?case
  proof (cases "assignable T (TUnion [PositiveInfinity, NegativeInfinity])")
    case True
    then show ?thesis by (subst Jsonify_member.simps) simp
  next
    case inf: False
    show ?thesis
    proof (cases "assignable T JsonPrimitive")
      case True
      then show ?thesis
        using inf by (subst Jsonify_member.simps) (simp add: JsonValue_primitive)
    next
      case prim: False
      show ?thesis
      proof (cases "extends_object T")
        case False
        then show ?thesis
          using inf prim by (subst Jsonify_member.simps) simp
      next
        case obj: True
        show ?thesis
        proof (cases "toJSON_type T")
          case (Some J)
          then show ?thesis
            using inf prim obj "2.IH"(4) [OF inf prim obj Some]
            by (subst Jsonify_member.simps) simp
        next
          case None
          note ih = "2.IH"(1-3) [OF inf prim obj None]
          have arr: "assignable_JsonValue False
              (map_elements (\<lambda>E. if assignable E NotJsonable then TNull else Jsonify F E) T)"
            if a: "extends_any_array T" and b: "T \<noteq> BoxedNumber" "T \<noteq> BoxedString"
              "T \<noteq> BoxedBoolean" "\<not> (T = TMap \<or> T = TSet)" "T \<noteq> TypedArray"
            using ih(1) [OF b a] a by (intro JsonValue_map_elements) auto
          have req: "list_all (\<lambda>p. case fst p of SymKey _ \<Rightarrow> True
                      | _ \<Rightarrow> assignable_JsonValue (fst (snd p)) (snd (snd p)))
                (map (\<lambda>Key. (Key, is_optional T Key, Jsonify F (index_access T Key)))
                   (filter (\<lambda>Key. RequiredKeyFilter F T Key = Some Key) (keyof T)))"
            if a: "\<not> extends_any_array T" and b: "T \<noteq> BoxedNumber" "T \<noteq> BoxedString"
              "T \<noteq> BoxedBoolean" "\<not> (T = TMap \<or> T = TSet)" "T \<noteq> TypedArray"
            using ih(2) [OF b a]
            by (auto simp: list_all_iff intro: JsonValue_optional split: key.splits)
          have opt: "list_all (\<lambda>p. case fst p of SymKey _ \<Rightarrow> True
                      | _ \<Rightarrow> assignable_JsonValue (fst (snd p)) (snd (snd p)))
                (map (\<lambda>Key. (Key, True, Jsonify F (Exclude (index_access T Key) TUndefined)))
                   (filter (\<lambda>Key. OptionalKeyFilter F T Key = Some Key) (keyof T)))"
            if a: "\<not> extends_any_array T" and b: "T \<noteq> BoxedNumber" "T \<noteq> BoxedString"
              "T \<noteq> BoxedBoolean" "\<not> (T = TMap \<or> T = TSet)" "T \<noteq> TypedArray"
            using ih(3) [OF b a]
            by (auto simp: list_all_iff intro: JsonValue_optional split: key.splits)
          show ?thesis
            using inf prim obj None arr req opt
            by (subst Jsonify_member.simps)
              (auto simp: EmptyObject_def Record_string_number_def intro!: JsonValue_Merge)
        qed
      qed
    qed
  qed
qed

text \<open>
  C1: for every shape \<open>S\<close>, \<open>Jsonify S\<close> is assignable to the general JSON-value shape: it
  is made only of string, number, boolean, null and their literals, arrays and tuples of
  such shapes, records of such shapes (an optional key stays optional) and unions of
  such shapes, the empty union among them.
\<close>

theorem Jsonify_assignable_JsonValue:
  "assignable_JsonValue False (Jsonify F S)"
  by (rule Jsonify_is_JsonValue)


section \<open>Projecting twice\<close>

text \<open>
  The JSON-value shapes in normal form: string, number, boolean, null and their finite
  literals; arrays and tuples of shapes in normal form, none of them empty; records
  whose keys are distinct and no symbols, required keys before optional ones, whose
  values are in normal form, not empty, and no shapes that the generic function type is
  assignable to (\<open>function_extends\<close>: the empty record \<open>{}\<close>, a record that the members
  of functions satisfy such as \<open>{length: number}\<close>, or a union with such a member); and
  flat unions without duplicates of at least two such shapes, or of none (the empty
  shape).
\<close>

definition required_first :: "props \<Rightarrow> bool" where
  "required_first ps \<longleftrightarrow>
     ps = filter (\<lambda>p. \<not> fst (snd p)) ps @ filter (\<lambda>p. fst (snd p)) ps"

fun json_normal :: "(props \<Rightarrow> bool) \<Rightarrow> shape \<Rightarrow> bool" where
  "json_normal F TString = True"
| "json_normal F TNumber = True"
| "json_normal F TBoolean = True"
| "json_normal F TNull = True"
| "json_normal F (StrLit _) = True"
| "json_normal F (NumLit _) = True"
| "json_normal F (BoolLit _) = True"
| "json_normal F (TArray E) = (json_normal F E \<and> E \<noteq> TNever)"
| "json_normal F (TTuple Es) = list_all (\<lambda>E. json_normal F E \<and> E \<noteq> TNever) Es"
| "json_normal F (TRecord ps) =
     (distinct (map fst ps) \<and> required_first ps
      \<and> list_all (\<lambda>p. \<not> key_extends_symbol (fst p)
            \<and> json_normal F (snd (snd p)) \<and> snd (snd p) \<noteq> TNever
            \<and> \<not> function_extends F (snd (snd p))) ps)"
| "json_normal F (TUnion ms) =
     (distinct ms \<and> length ms \<noteq> 1 \<and> list_all (\<lambda>m. \<not> is_union m \<and> json_normal F m) ms)"
| "json_normal F _ = False"

lemma flat_members:
  "list_all (\<lambda>m. \<not> is_union m \<and> json_normal F m) ms \<Longrightarrow> concat (map members ms) = ms"
  by (rule concat_members_id) (simp add: list_all_iff)

lemma normal_members:
  "json_normal F s \<Longrightarrow> m \<in> set (members s) \<Longrightarrow> json_normal F m \<and> \<not> is_union m"
  by (cases s) (auto simp: flat_members [of F], auto simp: list_all_iff)

lemma normal_distinct_members: "json_normal F s \<Longrightarrow> distinct (members s)"
  by (cases s) (auto simp: flat_members [of F])

lemma normal_nonempty: "json_normal F s \<Longrightarrow> s \<noteq> TNever \<Longrightarrow> members s \<noteq> []"
  by (cases s) (auto simp: flat_members [of F] simp del: concat_eq_Nil_conv)

lemma mk_union_members: "json_normal F s \<Longrightarrow> mk_union (members s) = s"
proof -
  assume n: "json_normal F s"
  have "remdups (concat (map members (members s))) = members s"
    using n by (simp add: members_members normal_distinct_members)
  then have "mk_union (members s) = (case members s of [m] \<Rightarrow> m | ms \<Rightarrow> TUnion ms)"
    by (simp add: mk_union_def)
  also have "\<dots> = s"
    using n by (cases s) (auto simp: flat_members [of F] split: list.splits)
  finally show ?thesis .
qed

lemma normal_atom:
  "json_normal F m \<Longrightarrow> \<not> is_union m \<Longrightarrow>
   \<not> rejected m \<and> \<not> assignable_member m TFunction \<and> \<not> assignable_member m TUndefined
   \<and> \<not> assignable_member m TSymbol \<and> m \<noteq> PositiveInfinity \<and> m \<noteq> NegativeInfinity"
  by (cases m) (auto simp: rejected_def assignable_member_def)

lemma normal_value:
  assumes "json_normal F V" "V \<noteq> TNever"
  shows "\<not> assignable V NotJsonable"
    and "\<not> assignable TUndefined V"
    and "\<not> assignable V TSymbol"
proof -
  obtain m where m: "m \<in> set (members V)"
    using normal_nonempty [OF assms] by (cases "members V") auto
  have a: "\<not> rejected x \<and> \<not> assignable_member x TFunction \<and> \<not> assignable_member x TUndefined
      \<and> \<not> assignable_member x TSymbol" if "x \<in> set (members V)" for x
    using normal_members [OF assms(1) that] normal_atom [of F x] by blast
  show "\<not> assignable V NotJsonable"
    using m a [OF m] by (auto simp: assignable_def NotJsonable_def list_all_iff)
  show "\<not> assignable TUndefined V"
    using a by (auto simp: assignable_undefined rejected_def)
  show "\<not> assignable V TSymbol"
    using m a [OF m] by (auto simp: assignable_to_symbol rejected_def)
qed

lemma normal_optional_value:
  assumes "json_normal F V" "V \<noteq> TNever"
  shows "assignable TUndefined (mk_union [V, TUndefined])"
    and "\<not> assignable (mk_union [V, TUndefined]) TUndefined"
    and "\<not> assignable (mk_union [V, TUndefined]) TSymbol"
    and "\<not> function_extends F V \<Longrightarrow> \<not> function_extends F (mk_union [V, TUndefined])"
    and "Exclude (mk_union [V, TUndefined]) TUndefined = V"
proof -
  obtain m where m: "m \<in> set (members V)"
    using normal_nonempty [OF assms] by (cases "members V") auto
  have a: "x \<noteq> TUndefined \<and> x \<noteq> TFunction \<and> x \<noteq> TSymbol" if "x \<in> set (members V)" for x
    using normal_members [OF assms(1) that] normal_atom [of F x] by (auto simp: rejected_def)
  have ms: "members (mk_union [V, TUndefined]) = members V @ [TUndefined]"
    using a normal_distinct_members [OF assms(1)] by (auto simp: members_mk_union)
  show "assignable TUndefined (mk_union [V, TUndefined])"
    by (simp add: assignable_undefined ms)
  show "\<not> assignable (mk_union [V, TUndefined]) TUndefined"
    using m a [OF m] by (auto simp: assignable_to_undefined ms)
  show "\<not> assignable (mk_union [V, TUndefined]) TSymbol"
    by (auto simp: assignable_to_symbol ms)
  show "\<not> function_extends F (mk_union [V, TUndefined])" if "\<not> function_extends F V"
    using that by (simp add: function_extends_mk_union) (simp add: function_extends_def)
  have "\<not> assignable x TUndefined" if "x \<in> set (members V)" for x
    using a [OF that] members_nonunion [OF that]
    by (simp add: assignable_to_undefined members_self)
  then have "filter (\<lambda>m. \<not> assignable m TUndefined) (members V @ [TUndefined]) = members V"
    by (simp add: assignable_to_undefined filter_id_conv)
  then show "Exclude (mk_union [V, TUndefined]) TUndefined = V"
    by (simp add: Exclude_def ms mk_union_members [OF assms(1)])
qed

lemma map_filter_keys:
  "(\<And>p. p \<in> set ps \<Longrightarrow> P (fst p) = Q p) \<Longrightarrow> (\<And>p. p \<in> set ps \<Longrightarrow> Q p \<Longrightarrow> F (fst p) = p) \<Longrightarrow>
   map F (filter P (map fst ps)) = filter Q ps"
  by (induction ps) auto


lemma Jsonify_normal_union:
  assumes n: "json_normal F (TUnion ms)" and ih: "\<And>m. m \<in> set ms \<Longrightarrow> Jsonify F m = m"
  shows "Jsonify F (TUnion ms) = TUnion ms"
proof -
  have ms: "members (TUnion ms) = ms"
    using n by (simp add: flat_members [of F])
  have a: "\<not> is_union m \<and> \<not> rejected m" if "m \<in> set ms" for m
    using n that normal_atom [of F m] by (auto simp: list_all_iff)
  have "Jsonify_member F m = m" if "m \<in> set ms" for m
    using a [OF that] ih [OF that] by (simp add: Jsonify_nonunion)
  then have "map (Jsonify_member F) ms = ms"
    by (simp add: map_idI)
  moreover have "assignable (Extract (TUnion ms) (TUnion [NotJsonable, TBigint])) TNever"
    unfolding Extract_never ms using a by blast
  moreover have "mk_union ms = TUnion ms"
    using mk_union_members [OF n] ms by simp
  ultimately show ?thesis
    by (subst Jsonify.simps) (simp add: ms del: members.simps)
qed

lemma Jsonify_normal_record:
  assumes n: "json_normal F (TRecord ps)"
    and ih: "\<And>p. p \<in> set ps \<Longrightarrow> Jsonify F (snd (snd p)) = snd (snd p)"
  shows "Jsonify F (TRecord ps) = TRecord ps"
proof -
  let ?T = "TRecord ps"
  have d: "distinct (map fst ps)" and rf: "required_first ps"
    using n by simp_all
  have k: "keyof ?T = map fst ps"
    using d by (simp add: keyof_def)
  have v: "\<not> key_extends_symbol (fst p) \<and> json_normal F (snd (snd p)) \<and> snd (snd p) \<noteq> TNever
      \<and> \<not> function_extends F (snd (snd p))"
    if "p \<in> set ps" for p
    using n that by (simp add: list_all_iff)
  have look: "map_of ps (fst p) = Some (snd p)" if "p \<in> set ps" for p
    using d that by (cases p) simp
  have opt: "is_optional ?T (fst p) = fst (snd p)" if "p \<in> set ps" for p
    using look [OF that] by (simp add: is_optional_def split: prod.splits)
  have acc: "index_access ?T (fst p) =
      (if fst (snd p) then mk_union [snd (snd p), TUndefined] else snd (snd p))"
    if "p \<in> set ps" for p
    using look [OF that] by (simp add: index_access_def split: prod.splits)
  have req: "(RequiredKeyFilter F ?T (fst p) = Some (fst p)) = (\<not> fst (snd p))"
    if "p \<in> set ps" for p
    using v [OF that] acc [OF that]
      normal_value [of F "snd (snd p)"] normal_optional_value [of F "snd (snd p)"]
    by (simp add: RequiredKeyFilter_def BaseKeyFilter_def)
  have op: "(OptionalKeyFilter F ?T (fst p) = Some (fst p)) = fst (snd p)"
    if "p \<in> set ps" for p
    using v [OF that] acc [OF that]
      normal_value [of F "snd (snd p)"] normal_optional_value [of F "snd (snd p)"]
    by (simp add: OptionalKeyFilter_def BaseKeyFilter_def)
  have r: "required_properties F ?T = filter (\<lambda>p. \<not> fst (snd p)) ps"
    unfolding required_properties_def k
  proof (rule map_filter_keys)
    fix p assume p: "p \<in> set ps"
    show "(RequiredKeyFilter F ?T (fst p) = Some (fst p)) = (\<not> fst (snd p))"
      by (rule req [OF p])
    assume "\<not> fst (snd p)"
    then show "(fst p, is_optional ?T (fst p), Jsonify F (index_access ?T (fst p))) = p"
      using opt [OF p] acc [OF p] ih [OF p] by (cases p) simp
  qed
  have o: "optional_properties F ?T = filter (\<lambda>p. fst (snd p)) ps"
    unfolding optional_properties_def k
  proof (rule map_filter_keys)
    fix p assume p: "p \<in> set ps"
    show "(OptionalKeyFilter F ?T (fst p) = Some (fst p)) = fst (snd p)"
      by (rule op [OF p])
    assume "fst (snd p)"
    then show "(fst p, True, Jsonify F (Exclude (index_access ?T (fst p)) TUndefined)) = p"
      using acc [OF p] ih [OF p] v [OF p] normal_optional_value(5) [of F "snd (snd p)"]
      by (cases p) simp
  qed
  have "Jsonify F ?T = TRecord (required_properties F ?T @ optional_properties F ?T)"
    by (simp add: Jsonify_TRecord Merge_halves)
  also have "\<dots> = TRecord ps"
    unfolding r o using rf by (simp add: required_first_def)
  finally show ?thesis .
qed

lemma Jsonify_normal: "json_normal F s \<Longrightarrow> Jsonify F s = s"
proof (induction F s rule: json_normal.induct)
  case (8 F E)
  then show ?case
    using normal_value(1) [of F E] by (simp add: Jsonify_TArray)
next
  case (9 F Es)
  have "(if assignable E NotJsonable then TNull else Jsonify F E) = E" if "E \<in> set Es" for E
    using 9 that normal_value(1) [of F E] by (simp add: list_all_iff)
  then show ?case
    by (simp add: Jsonify_TTuple map_idI)
next
  case (10 F ps)
  show ?case
  proof (rule Jsonify_normal_record)
    show "json_normal F (TRecord ps)" by (rule "10.prems")
    fix p assume "p \<in> set ps"
    then show "Jsonify F (snd (snd p)) = snd (snd p)"
      using 10 by (simp add: list_all_iff)
  qed
next
  case (11 F ms)
  show ?case
  proof (rule Jsonify_normal_union)
    show "json_normal F (TUnion ms)" by (rule "11.prems")
    fix m assume "m \<in> set ms"
    then show "Jsonify F m = m"
      using 11 by (simp add: list_all_iff)
  qed
qed (simp_all add: Jsonify_primitive)

text \<open>
  Two conditions under which the projection is in normal form. \<open>no_toJSON S\<close>: no object
  type with a \<open>toJSON\<close> method occurs in \<open>S\<close>. \<open>no_empty_part F S\<close>: at every depth of \<open>S\<close>,
  the empty shape is no array element, tuple element or property value, and no property
  value is a shape that the generic function type is assignable to (\<open>function_extends\<close>:
  the empty record \<open>{}\<close>, a record that the members of functions satisfy such as
  \<open>{length: number}\<close>, or a union with such a member).
\<close>

fun no_toJSON :: "shape \<Rightarrow> bool" where
  "no_toJSON (TJsonable _) = False"
| "no_toJSON (TArray E) = no_toJSON E"
| "no_toJSON (TTuple Es) = list_all no_toJSON Es"
| "no_toJSON (TRecord ps) = list_all (\<lambda>p. no_toJSON (snd (snd p))) ps"
| "no_toJSON (TUnion ms) = list_all no_toJSON ms"
| "no_toJSON _ = True"

fun no_empty_part :: "(props \<Rightarrow> bool) \<Rightarrow> shape \<Rightarrow> bool" where
  "no_empty_part F (TJsonable J) = no_empty_part F J"
| "no_empty_part F (TArray E) = (E \<noteq> TNever \<and> no_empty_part F E)"
| "no_empty_part F (TTuple Es) = list_all (\<lambda>E. E \<noteq> TNever \<and> no_empty_part F E) Es"
| "no_empty_part F (TRecord ps) =
     list_all (\<lambda>p. snd (snd p) \<noteq> TNever \<and> \<not> function_extends F (snd (snd p))
        \<and> no_empty_part F (snd (snd p))) ps"
| "no_empty_part F (TUnion ms) = list_all (no_empty_part F) ms"
| "no_empty_part F _ = True"

lemma no_toJSON_members: "no_toJSON T \<longleftrightarrow> (\<forall>m \<in> set (members T). no_toJSON m)"
  by (induction T rule: members.induct) (auto simp: list_all_iff)

lemma no_empty_part_members:
  "no_empty_part F T \<longleftrightarrow> (\<forall>m \<in> set (members T). no_empty_part F m)"
  by (induction T rule: members.induct) (auto simp: list_all_iff)

lemma no_toJSON_mk_union:
  assumes "\<And>s. s \<in> set ss \<Longrightarrow> no_toJSON s"
  shows "no_toJSON (mk_union ss)"
proof -
  have "no_toJSON m" if m: "m \<in> set (members (mk_union ss))" for m
  proof -
    obtain s where s: "s \<in> set ss" "m \<in> set (members s)"
      using m by (auto simp: members_mk_union)
    then show ?thesis
      using assms [OF s(1)] no_toJSON_members [of s] by blast
  qed
  then show ?thesis
    using no_toJSON_members [of "mk_union ss"] by blast
qed

lemma no_toJSON_Exclude: "no_toJSON T \<Longrightarrow> no_toJSON (Exclude T U)"
proof -
  assume "no_toJSON T"
  then have "no_toJSON m" if "m \<in> set (members T)" for m
    using that no_toJSON_members [of T] by blast
  then show ?thesis
    unfolding Exclude_def by (intro no_toJSON_mk_union) simp
qed

lemma no_toJSON_index_access: "no_toJSON T \<Longrightarrow> no_toJSON (index_access T Key)"
proof (cases "map_of (properties T) Key")
  case None
  then show ?thesis by (simp add: index_access_def)
next
  case (Some a)
  assume n: "no_toJSON T"
  obtain opt V where a: "a = (opt, V)" by (cases a)
  have "(Key, opt, V) \<in> set (properties T)"
    using Some a by (simp add: map_of_SomeD)
  then have "no_toJSON V"
    using n by (cases T) (auto simp: list_all_iff)
  then have "no_toJSON (mk_union [V, TUndefined])"
    by (intro no_toJSON_mk_union) auto
  then show ?thesis
    using Some a \<open>no_toJSON V\<close> by (simp add: index_access_def)
qed

lemma no_empty_part_mk_union:
  assumes "no_empty_part F (mk_union ss)" and "s \<in> set ss"
  shows "no_empty_part F s"
proof -
  have "no_empty_part F m" if "m \<in> set (members s)" for m
  proof -
    have "m \<in> set (members (mk_union ss))"
      using that assms(2) by (auto simp: members_mk_union)
    then show ?thesis
      using assms(1) no_empty_part_members [of F "mk_union ss"] by blast
  qed
  then show ?thesis
    using no_empty_part_members [of F s] by blast
qed

lemma normal_mk_union:
  assumes "\<And>s. s \<in> set ss \<Longrightarrow> json_normal F s"
  shows "json_normal F (mk_union ss)"
proof -
  define ms where "ms = remdups (concat (map members ss))"
  have m: "json_normal F m \<and> \<not> is_union m" if "m \<in> set ms" for m
    using that assms normal_members unfolding ms_def by auto
  have d: "distinct ms"
    by (simp add: ms_def)
  have u: "mk_union ss = (case ms of [m] \<Rightarrow> m | _ \<Rightarrow> TUnion ms)"
    unfolding mk_union_def ms_def [symmetric] by (auto split: list.splits)
  show ?thesis
  proof (cases "\<exists>x. ms = [x]")
    case True
    then obtain x where x: "ms = [x]" by blast
    then have "json_normal F x" using m [of x] by simp
    then show ?thesis using x u by simp
  next
    case False
    then have "mk_union ss = TUnion ms"
      unfolding u by (auto split: list.splits)
    moreover have "length ms \<noteq> 1"
      using False by (auto simp: length_Suc_conv)
    ultimately show ?thesis
      using m d by (simp add: list_all_iff)
  qed
qed

lemma normal_primitive:
  assumes "\<not> is_union T" "assignable T JsonPrimitive"
    "\<not> assignable T (TUnion [PositiveInfinity, NegativeInfinity])"
  shows "json_normal F T"
proof -
  have "assignable_member T TString \<or> assignable_member T TNumber
      \<or> assignable_member T TBoolean \<or> assignable_member T TNull"
    using assms(1,2) by (simp add: assignable_nonunion JsonPrimitive_def)
  moreover have "T \<noteq> PositiveInfinity \<and> T \<noteq> NegativeInfinity"
    using assms(1,3) by (auto simp: assignable_nonunion assignable_member_def)
  ultimately show ?thesis
    by (cases T) (simp_all add: assignable_member_def)
qed

lemma normal_map_elements:
  assumes "extends_any_array T" "no_empty_part F (map_elements G T)"
    and "\<And>E. E \<in> set (elements T) \<Longrightarrow> no_empty_part F (G E) \<Longrightarrow> json_normal F (G E)"
  shows "json_normal F (map_elements G T)"
proof (cases T)
  case (TArray E)
  then show ?thesis using assms by simp
next
  case (TTuple Es)
  then show ?thesis using assms by (simp add: list_all_iff)
qed (use assms(1) in simp_all)

lemma required_not_optional:
  assumes "Key \<in> set (keyof T)" "RequiredKeyFilter F T Key = Some Key"
  shows "\<not> is_optional T Key"
proof
  assume "is_optional T Key"
  then have "assignable TUndefined (index_access T Key)"
    using is_optional_undefined [OF assms(1)] by (simp add: assignable_undefined)
  then show False
    using assms(2) by (simp add: RequiredKeyFilter_def)
qed

lemma kept_no_symbol:
  "RequiredKeyFilter F T Key = Some Key \<or> OptionalKeyFilter F T Key = Some Key \<Longrightarrow>
   \<not> key_extends_symbol Key"
  by (auto simp: RequiredKeyFilter_def OptionalKeyFilter_def BaseKeyFilter_def split: if_splits)

lemma required_first_halves:
  "required_first (required_properties F T @ optional_properties F T)"
proof -
  have "\<not> fst (snd p)" if "p \<in> set (required_properties F T)" for p
    using that required_not_optional [of _ T F] by (auto simp: required_properties_def)
  then have "filter (\<lambda>p. fst (snd p)) (required_properties F T) = []"
    and "filter (\<lambda>p. \<not> fst (snd p)) (required_properties F T) = required_properties F T"
    by (simp_all add: filter_empty_conv filter_id_conv)
  moreover have "fst (snd p)" if "p \<in> set (optional_properties F T)" for p
    using that by (auto simp: optional_properties_def)
  then have "filter (\<lambda>p. fst (snd p)) (optional_properties F T) = optional_properties F T"
    and "filter (\<lambda>p. \<not> fst (snd p)) (optional_properties F T) = []"
    by (simp_all add: filter_empty_conv filter_id_conv)
  ultimately show ?thesis by (simp add: required_first_def)
qed

lemma Jsonify_member_record:
  assumes "\<not> assignable T (TUnion [PositiveInfinity, NegativeInfinity])"
    "\<not> assignable T JsonPrimitive" "extends_object T" "toJSON_type T = None"
    "T \<noteq> BoxedNumber" "T \<noteq> BoxedString" "T \<noteq> BoxedBoolean" "\<not> (T = TMap \<or> T = TSet)"
    "T \<noteq> TypedArray" "\<not> extends_any_array T"
  shows "Jsonify_member F T = TRecord (required_properties F T @ optional_properties F T)"
  using assms
  by (subst Jsonify_member.simps)
    (simp add: required_properties_def [symmetric] optional_properties_def [symmetric]
      Merge_halves)

lemma normal_halves:
  assumes nep: "no_empty_part F (TRecord (required_properties F T @ optional_properties F T))"
    and req: "\<And>Key. Key \<in> set (keyof T) \<Longrightarrow> RequiredKeyFilter F T Key = Some Key \<Longrightarrow>
      no_empty_part F (Jsonify F (index_access T Key)) \<Longrightarrow> json_normal F (Jsonify F (index_access T Key))"
    and opt: "\<And>Key. Key \<in> set (keyof T) \<Longrightarrow> OptionalKeyFilter F T Key = Some Key \<Longrightarrow>
      no_empty_part F (Jsonify F (Exclude (index_access T Key) TUndefined)) \<Longrightarrow>
      json_normal F (Jsonify F (Exclude (index_access T Key) TUndefined))"
  shows "json_normal F (TRecord (required_properties F T @ optional_properties F T))"
proof -
  have d: "distinct (map fst (required_properties F T @ optional_properties F T))"
    using distinct_Merge_halves [of F T] by (simp add: Merge_halves)
  have r: "\<not> key_extends_symbol (fst p) \<and> json_normal F (snd (snd p)) \<and> snd (snd p) \<noteq> TNever
      \<and> \<not> function_extends F (snd (snd p))"
    if p: "p \<in> set (required_properties F T)" for p
  proof -
    obtain Key where k: "Key \<in> set (keyof T)" "RequiredKeyFilter F T Key = Some Key"
      "p = (Key, is_optional T Key, Jsonify F (index_access T Key))"
      using p by (auto simp: required_properties_def)
    have "snd (snd p) \<noteq> TNever \<and> \<not> function_extends F (snd (snd p))
        \<and> no_empty_part F (snd (snd p))"
      using nep p by (simp add: list_all_iff)
    then show ?thesis
      using k req [OF k(1,2)] kept_no_symbol [of F T Key] by simp
  qed
  have o: "\<not> key_extends_symbol (fst p) \<and> json_normal F (snd (snd p)) \<and> snd (snd p) \<noteq> TNever
      \<and> \<not> function_extends F (snd (snd p))"
    if p: "p \<in> set (optional_properties F T)" for p
  proof -
    obtain Key where k: "Key \<in> set (keyof T)" "OptionalKeyFilter F T Key = Some Key"
      "p = (Key, True, Jsonify F (Exclude (index_access T Key) TUndefined))"
      using p by (auto simp: optional_properties_def)
    have "snd (snd p) \<noteq> TNever \<and> \<not> function_extends F (snd (snd p))
        \<and> no_empty_part F (snd (snd p))"
      using nep p by (simp add: list_all_iff)
    then show ?thesis
      using k opt [OF k(1,2)] kept_no_symbol [of F T Key] by simp
  qed
  show ?thesis
    using d required_first_halves [of F T] r o
    by (simp add: list_all_iff) blast
qed

lemma Jsonify_normal_form:
  "no_toJSON T \<Longrightarrow> no_empty_part F (Jsonify F T) \<Longrightarrow> json_normal F (Jsonify F T)"
  "no_toJSON T \<Longrightarrow> \<not> is_union T \<Longrightarrow> no_empty_part F (Jsonify_member F T) \<Longrightarrow>
   json_normal F (Jsonify_member F T)"
proof (induction F T and F T rule: Jsonify_Jsonify_member.induct)
  case (1 F T)
  show ?case
  proof (cases "assignable (Extract T (TUnion [NotJsonable, TBigint])) TNever")
    case False
    then show ?thesis by (subst Jsonify.simps) simp
  next
    case ok: True
    show ?thesis
    proof (cases "is_union T")
      case False
      then have "Jsonify F T = Jsonify_member F T"
        using ok by (subst Jsonify.simps) simp
      then show ?thesis
        using "1.IH"(2) [OF ok False] "1.prems" False by simp
    next
      case True
      then have eq: "Jsonify F T = mk_union (map (Jsonify_member F) (members T))"
        using ok by (subst Jsonify.simps) simp
      have "json_normal F s" if s: "s \<in> set (map (Jsonify_member F) (members T))" for s
      proof -
        obtain m where m: "m \<in> set (members T)" "s = Jsonify_member F m"
          using s by auto
        have "no_toJSON m"
          using "1.prems"(1) m(1) no_toJSON_members [of T] by blast
        moreover have "no_empty_part F s"
          using "1.prems"(2) s unfolding eq by (rule no_empty_part_mk_union)
        ultimately show ?thesis
          using "1.IH"(1) [OF ok True m(1)] members_nonunion [OF m(1)] m(2) by simp
      qed
      then show ?thesis
        unfolding eq by (rule normal_mk_union)
    qed
  qed
next
  case (2 F T)
  show ?case
  proof (cases "assignable T (TUnion [PositiveInfinity, NegativeInfinity])")
    case True
    then show ?thesis by (subst Jsonify_member.simps) simp
  next
    case inf: False
    show ?thesis
    proof (cases "assignable T JsonPrimitive")
      case True
      then show ?thesis
        using inf normal_primitive [OF "2.prems"(2) True inf]
        by (subst Jsonify_member.simps) simp
    next
      case prim: False
      show ?thesis
      proof (cases "extends_object T")
        case False
        then show ?thesis
          using inf prim by (subst Jsonify_member.simps) simp
      next
        case obj: True
        show ?thesis
        proof (cases "toJSON_type T")
          case (Some J)
          then have "T = TJsonable J" by (cases T) auto
          then show ?thesis using "2.prems"(1) by simp
        next
          case None
          note ih = "2.IH"(1-3) [OF inf prim obj None]
          consider (boxed) "T = BoxedNumber \<or> T = BoxedString \<or> T = BoxedBoolean
              \<or> T = TMap \<or> T = TSet \<or> T = TypedArray"
            | (array) "T \<noteq> BoxedNumber" "T \<noteq> BoxedString" "T \<noteq> BoxedBoolean"
              "\<not> (T = TMap \<or> T = TSet)" "T \<noteq> TypedArray" "extends_any_array T"
            | (plain) "T \<noteq> BoxedNumber" "T \<noteq> BoxedString" "T \<noteq> BoxedBoolean"
              "\<not> (T = TMap \<or> T = TSet)" "T \<noteq> TypedArray" "\<not> extends_any_array T"
            by blast
          then show ?thesis
          proof cases
            case boxed
            then show ?thesis
              by (subst Jsonify_member.simps)
                (auto simp: EmptyObject_def Record_string_number_def required_first_def
                  assignable_nonunion assignable_member_def JsonPrimitive_def
                  function_extends_def)
          next
            case array
            let ?F = "\<lambda>E. if assignable E NotJsonable then TNull else Jsonify F E"
            have eq: "Jsonify_member F T = map_elements ?F T"
              using inf prim obj None array by (subst Jsonify_member.simps) simp
            have "json_normal F (?F E)"
              if e: "E \<in> set (elements T)" and n: "no_empty_part F (?F E)" for E
            proof (cases "assignable E NotJsonable")
              case True
              then show ?thesis by simp
            next
              case False
              have "no_toJSON E"
                using "2.prems"(1) e array(6) by (cases T) (auto simp: list_all_iff)
              then show ?thesis
                using ih(1) [OF array e False] n False by simp
            qed
            then show ?thesis
              using "2.prems"(3) array(6) unfolding eq by (intro normal_map_elements)
          next
            case plain
            have eq: "Jsonify_member F T = TRecord (required_properties F T @ optional_properties F T)"
              using inf prim obj None plain by (rule Jsonify_member_record)
            show ?thesis
              unfolding eq
            proof (rule normal_halves)
              show "no_empty_part F (TRecord (required_properties F T @ optional_properties F T))"
                using "2.prems"(3) unfolding eq .
            next
              fix Key
              assume k: "Key \<in> set (keyof T)" "RequiredKeyFilter F T Key = Some Key"
                and n: "no_empty_part F (Jsonify F (index_access T Key))"
              have "Key \<in> set (filter (\<lambda>Key. RequiredKeyFilter F T Key = Some Key) (keyof T))"
                using k by simp
              then show "json_normal F (Jsonify F (index_access T Key))"
                using ih(2) [OF plain] no_toJSON_index_access [OF "2.prems"(1)] n by blast
            next
              fix Key
              assume k: "Key \<in> set (keyof T)" "OptionalKeyFilter F T Key = Some Key"
                and n: "no_empty_part F (Jsonify F (Exclude (index_access T Key) TUndefined))"
              have "Key \<in> set (filter (\<lambda>Key. OptionalKeyFilter F T Key = Some Key) (keyof T))"
                using k by simp
              then show "json_normal F (Jsonify F (Exclude (index_access T Key) TUndefined))"
                using ih(3) [OF plain]
                  no_toJSON_Exclude [OF no_toJSON_index_access [OF "2.prems"(1)]] n
                by blast
            qed
          qed
        qed
      qed
    qed
  qed
qed

text \<open>
  Where the hypothesis on property values fails, projecting twice differs from projecting
  once: with a library in which a function has \<open>length: number\<close>,
  \<open>{a: {length: number, cb: function}}\<close> projects to \<open>{a: {length: number}}\<close> and that to
  \<open>{}\<close>; and \<open>{a: {f: function} | string}\<close> projects to \<open>{a: {} | string}\<close> and that to
  \<open>{}\<close>.
\<close>

lemma Jsonify_twice_function_assignable:
  "Jsonify Function_length (TRecord [(StrKey ''a'', False,
        TRecord [(StrKey ''length'', False, TNumber), (StrKey ''cb'', False, TFunction)])])
     = TRecord [(StrKey ''a'', False, TRecord [(StrKey ''length'', False, TNumber)])]"
  "Jsonify Function_length
      (TRecord [(StrKey ''a'', False, TRecord [(StrKey ''length'', False, TNumber)])])
     = TRecord []"
  "Jsonify Function_length (TRecord [(StrKey ''a'', False,
        TUnion [TRecord [(StrKey ''f'', False, TFunction)], TString])])
     = TRecord [(StrKey ''a'', False, TUnion [TRecord [], TString])]"
  "Jsonify Function_length (TRecord [(StrKey ''a'', False, TUnion [TRecord [], TString])])
     = TRecord []"
  by code_simp+

text \<open>
  C2, as the code has it: \<open>Jsonify (Jsonify S) = Jsonify S\<close> for every shape \<open>S\<close> without
  \<open>toJSON\<close> whose projection has, at every depth, the empty shape nowhere as an array
  element, a tuple element or a property value, and no property value that the generic
  function type is assignable to (the empty record \<open>{}\<close>, a record that the members of
  functions satisfy such as \<open>{length: number}\<close>, or a union with such a member); and,
  with or without \<open>toJSON\<close>, for every \<open>S\<close> whose projection is a JSON-value shape in
  normal form, since \<open>Jsonify\<close> is the identity on these.
\<close>

theorem Jsonify_idempotent_on_normal:
  "(no_toJSON S \<and> no_empty_part F (Jsonify F S) \<longrightarrow> Jsonify F (Jsonify F S) = Jsonify F S)
   \<and> (json_normal F (Jsonify F S) \<longrightarrow> Jsonify F (Jsonify F S) = Jsonify F S)"
  using Jsonify_normal [of F "Jsonify F S"] Jsonify_normal_form(1) [of S F] by blast

theorem Jsonify_idempotent_on_normal_witness:
  "no_toJSON (TRecord [(StrKey ''a'', False, TArray TFunction),
         (StrKey ''b'', False, TUnion [TUndefined, TNumber]), (StrKey ''c'', False, TSymbol)])
   \<and> no_empty_part Function_length (Jsonify Function_length (TRecord [(StrKey ''a'', False, TArray TFunction),
         (StrKey ''b'', False, TUnion [TUndefined, TNumber]), (StrKey ''c'', False, TSymbol)]))
   \<and> Jsonify Function_length (Jsonify Function_length (TRecord [(StrKey ''a'', False, TArray TFunction),
         (StrKey ''b'', False, TUnion [TUndefined, TNumber]), (StrKey ''c'', False, TSymbol)]))
       = Jsonify Function_length (TRecord [(StrKey ''a'', False, TArray TFunction),
         (StrKey ''b'', False, TUnion [TUndefined, TNumber]), (StrKey ''c'', False, TSymbol)])
   \<and> json_normal Function_length (Jsonify Function_length (TJsonable (TTuple [TString, StrLit ''x''])))
   \<and> Jsonify Function_length (Jsonify Function_length (TJsonable (TTuple [TString, StrLit ''x''])))
       = Jsonify Function_length (TJsonable (TTuple [TString, StrLit ''x'']))"
proof -
  have h1: "no_toJSON (TRecord [(StrKey ''a'', False, TArray TFunction),
         (StrKey ''b'', False, TUnion [TUndefined, TNumber]), (StrKey ''c'', False, TSymbol)])"
    by simp
  have h2: "no_empty_part Function_length (Jsonify Function_length (TRecord [(StrKey ''a'', False, TArray TFunction),
         (StrKey ''b'', False, TUnion [TUndefined, TNumber]), (StrKey ''c'', False, TSymbol)]))"
    by code_simp
  have h3: "json_normal Function_length (Jsonify Function_length (TJsonable (TTuple [TString, StrLit ''x''])))"
    by code_simp
  show ?thesis
    using h1 h2 h3
      Jsonify_idempotent_on_normal [of "TRecord [(StrKey ''a'', False, TArray TFunction),
         (StrKey ''b'', False, TUnion [TUndefined, TNumber]), (StrKey ''c'', False, TSymbol)]"
        Function_length]
      Jsonify_idempotent_on_normal [of "TJsonable (TTuple [TString, StrLit ''x''])"
        Function_length]
    by blast
qed

text \<open>
  C2 as the spec has it fails: \<open>bigint[]\<close> projects to \<open>never[]\<close>, and \<open>never[]\<close> projects
  to \<open>null[]\<close>, because \<open>never\<close> is assignable to \<open>NotJsonable\<close>.
\<close>

theorem Jsonify_not_idempotent_counterexample:
  "Jsonify Function_length (TArray TBigint) = TArray TNever
   \<and> Jsonify Function_length (Jsonify Function_length (TArray TBigint)) = TArray TNull
   \<and> Jsonify Function_length (Jsonify Function_length (TArray TBigint)) \<noteq> Jsonify Function_length (TArray TBigint)"
  by code_simp


end
